theory Spec2Isabelle
  imports Main "HOL-Library.Sublist"
begin

section \<open>Message-stream reconciliation of \<open>src/providers/Stream.tsx\<close>\<close>

text \<open>
  The component \<open>StreamSession\<close> keeps the conversation in one React state cell,
  \<open>const [messages, setMessages] = useState<any[]>([])\<close>, and writes it from three places,
  each through a functional updater \<open>setMessages((prevMessages) => ...)\<close>:
  the token branch and the end-of-phase branch of \<open>onLangChainEvent\<close>, and the effect
  that watches \<open>streamValue\<close>. Every updater is a pure function of the previous array, so
  the model passes the store explicitly: an updater is a function from store to store.
\<close>

subsection \<open>JavaScript values held in \<open>content\<close>\<close>

text \<open>
  \<open>content\<close> is declared \<open>string | MessageContentComplex[]\<close> by the SDK, and the code
  tests it for \<open>undefined\<close>, \<open>null\<close>, \<open>""\<close>, \<open>typeof ... === "string"\<close> and
  \<open>Array.isArray\<close>. The model has these values: \<open>undefined\<close>, \<open>null\<close>, a string, an
  array of values, and a plain object (a content block), whose fields the code never reads
  and which is therefore kept opaque (type \<open>'b\<close>). Numbers and booleans are not part of
  the declared content type and are not modelled.
\<close>

datatype 'b jsval =
    JUndefined
  | JNull
  | JStr string
  | JArr "'b jsval list"
  | JObj 'b

text \<open>JavaScript truthiness, as used by \<open>existingMessage.content || ""\<close>.\<close>

fun truthy :: "'b jsval \<Rightarrow> bool" where
  "truthy JUndefined = False"
| "truthy JNull = False"
| "truthy (JStr s) = (s \<noteq> [])"
| "truthy (JArr xs) = True"
| "truthy (JObj b) = True"

text \<open>\<open>Array.isArray\<close>.\<close>

fun isArray :: "'b jsval \<Rightarrow> bool" where
  "isArray (JArr xs) = True"
| "isArray v = False"

text \<open>\<open>Array.prototype.join\<close> with the default separator \<open>","\<close>.\<close>

fun join :: "string list \<Rightarrow> string" where
  "join [] = []"
| "join [x] = x"
| "join (x # y # ys) = x @ '','' @ join (y # ys)"

text \<open>
  The abstract operation ToString: an array renders as its elements joined by commas,
  with \<open>undefined\<close> and \<open>null\<close> elements rendered empty; a plain object renders as
  \<open>[object Object]\<close>.
\<close>

fun ToString :: "'b jsval \<Rightarrow> string" where
  "ToString JUndefined = ''undefined''"
| "ToString JNull = ''null''"
| "ToString (JStr s) = s"
| "ToString (JArr xs) =
     join (map (\<lambda>x. case x of JUndefined \<Rightarrow> [] | JNull \<Rightarrow> [] | _ \<Rightarrow> ToString x) xs)"
| "ToString (JObj b) = ''[object Object]''"

text \<open>\<open>a || b\<close>.\<close>

definition js_or :: "'b jsval \<Rightarrow> 'b jsval \<Rightarrow> 'b jsval" where
  "js_or a b = (if truthy a then a else b)"

text \<open>
  \<open>a + s\<close> where \<open>s\<close> is a string: the left operand is converted to a string and the two
  are concatenated.
\<close>

definition js_plus_string :: "'b jsval \<Rightarrow> string \<Rightarrow> 'b jsval" where
  "js_plus_string a s = JStr (ToString a @ s)"

subsection \<open>Messages and the store\<close>

text \<open>
  A message is an object of which the code reads \<open>id\<close> and \<open>content\<close>; every other
  property is carried along by the object spreads and is kept opaque in \<open>rest\<close>.
  \<open>id\<close> is declared \<open>id?: string\<close>: \<open>None\<close> is an absent id, \<open>Some s\<close> the string
  \<open>s\<close>. (The field is called \<open>msg_id\<close> because \<open>id\<close> is the identity function of HOL.)
\<close>

record ('b, 'r) message =
  msg_id :: "string option"
  content :: "'b jsval"
  rest :: 'r

type_synonym ('b, 'r) store = "('b, 'r) message list"

text \<open>Truthiness of an id: \<open>undefined\<close> and \<open>""\<close> are falsy.\<close>

fun truthy_id :: "string option \<Rightarrow> bool" where
  "truthy_id None = False"
| "truthy_id (Some s) = (s \<noteq> [])"

text \<open>\<open>Array.prototype.findIndex\<close>; \<open>None\<close> stands for the result \<open>-1\<close>.\<close>

fun findIndex :: "('a \<Rightarrow> bool) \<Rightarrow> 'a list \<Rightarrow> nat option" where
  "findIndex p [] = None"
| "findIndex p (x # xs) =
     (if p x then Some 0 else (case findIndex p xs of None \<Rightarrow> None | Some i \<Rightarrow> Some (Suc i)))"

subsection \<open>The token branch (lines 110 to 161)\<close>

text \<open>
  The updater of lines 123 to 159, for a chunk whose id \<open>chunkId\<close> is truthy and whose
  content \<open>chunkContent\<close> passed the guard of lines 118 to 122.
\<close>

definition appendChunk ::
  "string \<Rightarrow> 'b jsval \<Rightarrow> ('b, 'r) message \<Rightarrow> ('b, 'r) store \<Rightarrow> ('b, 'r) store" where
  "appendChunk chunkId chunkContent chunk prevMessages =
     (case findIndex (\<lambda>msg. msg_id msg = Some chunkId) prevMessages of
        Some existingMessageIndex \<Rightarrow>
          (let existingMessage = prevMessages ! existingMessageIndex in
           case chunkContent of
             JStr s \<Rightarrow>
               prevMessages[existingMessageIndex :=
                 existingMessage\<lparr>content :=
                   js_plus_string (js_or (content existingMessage) (JStr [])) s\<rparr>]
           | JArr blocks \<Rightarrow>
               prevMessages[existingMessageIndex :=
                 existingMessage\<lparr>content :=
                   (case content existingMessage of
                      JArr old \<Rightarrow> JArr (old @ blocks)
                    | other \<Rightarrow> JArr (other # blocks))\<rparr>]
           | _ \<Rightarrow> prevMessages)
      | None \<Rightarrow>
          prevMessages @
            [\<lparr>msg_id = Some chunkId, content = chunkContent, rest = rest chunk\<rparr>])"

text \<open>
  The guards around it: \<open>dataWithChunk?.chunk && dataWithChunk.chunk.id\<close>, then
  \<open>chunkContent !== undefined && chunkContent !== null && chunkContent !== ""\<close>.
  \<open>None\<close> is a payload without a chunk.
\<close>

definition onStream :: "('b, 'r) message option \<Rightarrow> ('b, 'r) store \<Rightarrow> ('b, 'r) store" where
  "onStream chunk prevMessages =
     (case chunk of
        None \<Rightarrow> prevMessages
      | Some c \<Rightarrow>
          (case msg_id c of
             None \<Rightarrow> prevMessages
           | Some chunkId \<Rightarrow>
               if chunkId = [] then prevMessages
               else if content c \<noteq> JUndefined \<and> content c \<noteq> JNull \<and> content c \<noteq> JStr []
               then appendChunk chunkId (content c) c prevMessages
               else prevMessages))"

subsection \<open>The end-of-phase branch (lines 162 to 189)\<close>

text \<open>The updater of lines 175 to 188.\<close>

definition mergeOutputMessages ::
  "('b, 'r) message list \<Rightarrow> ('b, 'r) store \<Rightarrow> ('b, 'r) store" where
  "mergeOutputMessages newMessages prevMessages =
     (let existingIds = set (map msg_id prevMessages);
          uniqueNewMessages =
            filter (\<lambda>msg. truthy_id (msg_id msg) \<and> msg_id msg \<notin> existingIds) newMessages
      in if length uniqueNewMessages > 0 then prevMessages @ uniqueNewMessages
         else prevMessages)"

subsection \<open>The effect on \<open>streamValue\<close> (lines 224 to 254)\<close>

text \<open>The updater of lines 231 to 250.\<close>

definition mergeStreamMessages ::
  "('b, 'r) message list \<Rightarrow> ('b, 'r) store \<Rightarrow> ('b, 'r) store" where
  "mergeStreamMessages streamMessages prevMessages =
     (let existingIds = set (map msg_id prevMessages);
          newMessagesFromStream =
            filter (\<lambda>msg. truthy_id (msg_id msg) \<and> msg_id msg \<notin> existingIds) streamMessages
      in if length newMessagesFromStream > 0 then prevMessages @ newMessagesFromStream
         else prevMessages)"

text \<open>
  The effect runs the updater only when \<open>streamValue.messages\<close> is an array; \<open>None\<close>
  is any other value.
\<close>

definition streamValueEffect ::
  "('b, 'r) message list option \<Rightarrow> ('b, 'r) store \<Rightarrow> ('b, 'r) store" where
  "streamValueEffect streamMessages prevMessages =
     (case streamMessages of
        None \<Rightarrow> prevMessages
      | Some ms \<Rightarrow> mergeStreamMessages ms prevMessages)"

subsection \<open>\<open>onLangChainEvent\<close> (lines 107 to 197)\<close>

text \<open>
  The payload \<open>data\<close>: \<open>chunk\<close> is \<open>data?.chunk\<close> when that is an object, and
  \<open>output_messages\<close> is \<open>data?.output?.messages\<close> when that is an array.
\<close>

record ('b, 'r) event_data =
  chunk :: "('b, 'r) message option"
  output_messages :: "('b, 'r) message list option"

definition onLangChainEvent ::
  "string \<Rightarrow> ('b, 'r) event_data \<Rightarrow> ('b, 'r) store \<Rightarrow> ('b, 'r) store" where
  "onLangChainEvent event data prevMessages =
     (if event = ''on_chain_stream'' \<or> event = ''on_chat_model_stream''
      then onStream (chunk data) prevMessages
      else if event = ''on_chain_end'' \<or> event = ''on_tool_end'' \<or> event = ''on_chat_model_end''
      then (case output_messages data of
              None \<Rightarrow> prevMessages
            | Some newMessages \<Rightarrow> mergeOutputMessages newMessages prevMessages)
      else prevMessages)"

text \<open>
  Everything that writes the store in one session: a LangChain event, or a run of the
  effect on a new \<open>streamValue\<close>.
\<close>

datatype ('b, 'r) input =
    LangChainEvent string "('b, 'r) event_data"
  | StreamValue "('b, 'r) message list option"

fun process :: "('b, 'r) store \<Rightarrow> ('b, 'r) input \<Rightarrow> ('b, 'r) store" where
  "process prevMessages (LangChainEvent event data) = onLangChainEvent event data prevMessages"
| "process prevMessages (StreamValue streamMessages) = streamValueEffect streamMessages prevMessages"

text \<open>A session starts from \<open>useState([])\<close> and processes its inputs in order.\<close>

definition session :: "('b, 'r) input list \<Rightarrow> ('b, 'r) store" where
  "session inputs = foldl process [] inputs"

text \<open>The message the store holds for an id, as \<open>find\<close> would return it.\<close>

definition lookup :: "string \<Rightarrow> ('b, 'r) store \<Rightarrow> ('b, 'r) message option" where
  "lookup x ms = List.find (\<lambda>msg. msg_id msg = Some x) ms"

subsection \<open>The merge policy as the specification words it\<close>

text \<open>
  Section 4.3 of the specification, for both mergers: compute the set of ids already
  present in the store; filter the incoming list to only ids not yet present; append the
  filtered, order-preserved list to the end of the store. This definition follows those
  words and is compared with the two updaters of the source.
\<close>

definition spec_filter_by_id_then_append ::
  "('b, 'r) message list \<Rightarrow> ('b, 'r) store \<Rightarrow> ('b, 'r) store" where
  "spec_filter_by_id_then_append incoming st =
     st @ filter (\<lambda>msg. msg_id msg \<notin> set (map msg_id st)) incoming"

section \<open>Auxiliary facts\<close>

subsection \<open>The two filter-and-append updaters\<close>

text \<open>The test on the length of the filtered list does not change the value returned.\<close>

lemma mergeOutputMessages_append:
  "mergeOutputMessages newMessages prevMessages =
     prevMessages @ filter (\<lambda>msg. truthy_id (msg_id msg) \<and> msg_id msg \<notin> set (map msg_id prevMessages)) newMessages"
  by (simp add: mergeOutputMessages_def Let_def)

lemma mergeStreamMessages_append:
  "mergeStreamMessages streamMessages prevMessages =
     prevMessages @ filter (\<lambda>msg. truthy_id (msg_id msg) \<and> msg_id msg \<notin> set (map msg_id prevMessages)) streamMessages"
  by (simp add: mergeStreamMessages_def Let_def)

subsection \<open>\<open>findIndex\<close> and \<open>find\<close>\<close>

lemma findIndex_None: "findIndex p xs = None \<longleftrightarrow> (\<forall>x \<in> set xs. \<not> p x)"
  by (induction xs) (auto split: option.splits)

lemma findIndex_Some:
  "findIndex p xs = Some i \<Longrightarrow> i < length xs \<and> p (xs ! i) \<and> (\<forall>j < i. \<not> p (xs ! j))"
proof (induction xs arbitrary: i)
  case Nil
  then show ?case by simp
next
  case (Cons x xs)
  show ?case
  proof (cases "p x")
    case True
    with Cons.prems show ?thesis by simp
  next
    case False
    with Cons.prems obtain k where k: "findIndex p xs = Some k" "i = Suc k"
      by (auto split: option.splits)
    from Cons.IH [OF k(1)] False k(2) show ?thesis
      by (auto simp: nth_Cons split: nat.splits)
  qed
qed

lemma findIndex_update:
  "findIndex p xs = Some i \<Longrightarrow> p y \<Longrightarrow> findIndex p (xs[i := y]) = Some i"
  by (induction xs arbitrary: i) (auto split: option.splits if_splits)

lemma findIndex_new_iff:
  "findIndex (\<lambda>msg. msg_id msg = Some x) prev = None \<longleftrightarrow> Some x \<notin> set (map msg_id prev)"
  by (force simp: findIndex_None image_iff)

lemma findIndex_appended:
  "findIndex (\<lambda>msg. msg_id msg = Some x) prev = None \<Longrightarrow>
   findIndex (\<lambda>msg. msg_id msg = Some x) (prev @ [\<lparr>msg_id = Some x, content = v, rest = r\<rparr>])
     = Some (length prev)"
  by (induction prev) (auto split: option.splits if_splits)

lemma find_append_Some: "List.find p xs = Some m \<Longrightarrow> List.find p (xs @ ys) = Some m"
  by (induction xs) (auto split: if_splits)

subsection \<open>The token updater, case by case\<close>

lemma appendChunk_new:
  "findIndex (\<lambda>msg. msg_id msg = Some x) prev = None \<Longrightarrow>
   appendChunk x v c prev = prev @ [\<lparr>msg_id = Some x, content = v, rest = rest c\<rparr>]"
  by (simp add: appendChunk_def)

lemma appendChunk_string:
  "findIndex (\<lambda>msg. msg_id msg = Some x) prev = Some i \<Longrightarrow>
   appendChunk x (JStr s) c prev =
     prev[i := (prev ! i)\<lparr>content := JStr (ToString (js_or (content (prev ! i)) (JStr [])) @ s)\<rparr>]"
  by (simp add: appendChunk_def js_plus_string_def Let_def)

lemma appendChunk_array:
  "findIndex (\<lambda>msg. msg_id msg = Some x) prev = Some i \<Longrightarrow>
   appendChunk x (JArr bs) c prev =
     prev[i := (prev ! i)\<lparr>content :=
       (case content (prev ! i) of JArr old \<Rightarrow> JArr (old @ bs) | other \<Rightarrow> JArr (other # bs))\<rparr>]"
  by (simp add: appendChunk_def Let_def)

lemma ids_appendChunk: "prefix (map msg_id prev) (map msg_id (appendChunk x v c prev))"
proof (cases "findIndex (\<lambda>msg. msg_id msg = Some x) prev")
  case None
  then show ?thesis by (simp add: appendChunk_new)
next
  case (Some i)
  from findIndex_Some [OF Some] have "i < length prev" by simp
  then have "map msg_id (prev[i := (prev ! i)\<lparr>content := w\<rparr>]) = map msg_id prev" for w
    by (simp add: map_update list_update_same_conv)
  with Some show ?thesis
    by (cases v) (simp_all add: appendChunk_def Let_def)
qed

lemma ids_onStream: "prefix (map msg_id prev) (map msg_id (onStream ch prev))"
  by (auto simp: onStream_def ids_appendChunk split: option.splits)

subsection \<open>What every input preserves\<close>

lemma ids_process: "prefix (map msg_id prev) (map msg_id (process prev inp))"
proof (cases inp)
  case (LangChainEvent event data)
  then show ?thesis
    by (auto simp: onLangChainEvent_def ids_onStream mergeOutputMessages_append
        split: option.splits)
next
  case (StreamValue sm)
  then show ?thesis
    by (auto simp: streamValueEffect_def mergeStreamMessages_append split: option.splits)
qed

lemma ids_foldl_process:
  "prefix (map msg_id prev) (map msg_id (foldl process prev inputs))"
proof (induction inputs arbitrary: prev)
  case Nil
  then show ?case by simp
next
  case (Cons inp inputs)
  have "prefix (map msg_id prev) (map msg_id (process prev inp))"
    by (rule ids_process)
  also have "prefix \<dots> (map msg_id (foldl process (process prev inp) inputs))"
    by (rule Cons.IH)
  finally show ?case by simp
qed

lemma truthy_appendChunk:
  assumes "x \<noteq> []" and "\<forall>m \<in> set prev. truthy_id (msg_id m)"
  shows "\<forall>m \<in> set (appendChunk x v c prev). truthy_id (msg_id m)"
proof (cases "findIndex (\<lambda>msg. msg_id msg = Some x) prev")
  case None
  with assms show ?thesis by (simp add: appendChunk_new)
next
  case (Some i)
  from findIndex_Some [OF Some] have i: "i < length prev" by simp
  with assms(2) have "truthy_id (msg_id (prev ! i))" by simp
  then have "\<forall>m \<in> set (prev[i := (prev ! i)\<lparr>content := w\<rparr>]). truthy_id (msg_id m)" for w
    using assms(2) set_update_subset_insert [of prev i "(prev ! i)\<lparr>content := w\<rparr>"]
    by auto
  with Some assms(2) show ?thesis
    by (cases v) (simp_all add: appendChunk_def Let_def)
qed

lemma truthy_process:
  assumes "\<forall>m \<in> set prev. truthy_id (msg_id m)"
  shows "\<forall>m \<in> set (process prev inp). truthy_id (msg_id m)"
proof (cases inp)
  case (LangChainEvent event data)
  have "\<forall>m \<in> set (onStream ch prev). truthy_id (msg_id m)" for ch
    using assms truthy_appendChunk [OF _ assms]
    by (auto simp: onStream_def split: option.splits)
  with LangChainEvent assms show ?thesis
    by (auto simp: onLangChainEvent_def mergeOutputMessages_append split: option.splits)
next
  case (StreamValue sm)
  with assms show ?thesis
    by (auto simp: streamValueEffect_def mergeStreamMessages_append split: option.splits)
qed

lemma truthy_foldl_process:
  "\<forall>m \<in> set prev. truthy_id (msg_id m) \<Longrightarrow>
   \<forall>m \<in> set (foldl process prev inputs). truthy_id (msg_id m)"
proof (induction inputs arbitrary: prev)
  case Nil
  then show ?case by simp
next
  case (Cons inp inputs)
  from truthy_process [OF Cons.prems] have "\<forall>m \<in> set (process prev inp). truthy_id (msg_id m)" .
  from Cons.IH [OF this] show ?case by simp
qed

subsection \<open>The shape of the store after a token event\<close>

lemma unchanged_shape: "\<exists>w. prev = prev[i := (prev ! i)\<lparr>content := w\<rparr>]"
  by (rule exI [of _ "content (prev ! i)"]) simp

lemma appendChunk_shape:
  assumes "findIndex (\<lambda>msg. msg_id msg = Some x) prev = Some i"
  shows "\<exists>w. appendChunk x v c prev = prev[i := (prev ! i)\<lparr>content := w\<rparr>]"
proof (cases "appendChunk x v c prev = prev")
  case True
  with unchanged_shape [of prev i] show ?thesis by simp
next
  case False
  with assms show ?thesis
    by (cases v) (auto simp: appendChunk_string appendChunk_array, auto simp: appendChunk_def)
qed

lemma onStream_shape:
  assumes "msg_id c = Some x" and "findIndex (\<lambda>msg. msg_id msg = Some x) prev = Some i"
  shows "\<exists>w. onStream (Some c) prev = prev[i := (prev ! i)\<lparr>content := w\<rparr>]"
proof (cases "onStream (Some c) prev = prev")
  case True
  with unchanged_shape [of prev i] show ?thesis by simp
next
  case False
  with assms(1) have "onStream (Some c) prev = appendChunk x (content c) c prev"
    by (auto simp: onStream_def split: if_splits)
  with appendChunk_shape [OF assms(2)] show ?thesis by simp
qed

lemma onStream_new:
  assumes "msg_id c = Some x" and "findIndex (\<lambda>msg. msg_id msg = Some x) prev = None"
  shows "onStream (Some c) prev = prev \<or> onStream (Some c) prev = prev @ [c]"
  using assms by (auto simp: onStream_def appendChunk_new)

lemma onStream_cases:
  "onStream ch prev = prev
   \<or> (\<exists>c. ch = Some c \<and> onStream ch prev = prev @ [c])
   \<or> (\<exists>c x i w. ch = Some c \<and> msg_id c = Some x
        \<and> findIndex (\<lambda>msg. msg_id msg = Some x) prev = Some i
        \<and> onStream ch prev = prev[i := (prev ! i)\<lparr>content := w\<rparr>])"
proof (cases ch)
  case None
  then show ?thesis by (simp add: onStream_def)
next
  case (Some c)
  show ?thesis
  proof (cases "msg_id c")
    case None
    with Some show ?thesis by (simp add: onStream_def)
  next
    case (Some x)
    note idc = this
    show ?thesis
    proof (cases "findIndex (\<lambda>msg. msg_id msg = Some x) prev")
      case None
      from onStream_new [OF idc None] \<open>ch = Some c\<close> show ?thesis by auto
    next
      case (Some i)
      from onStream_shape [OF idc Some] obtain w
        where "onStream (Some c) prev = prev[i := (prev ! i)\<lparr>content := w\<rparr>]" by blast
      with \<open>ch = Some c\<close> idc Some show ?thesis by blast
    qed
  qed
qed

section \<open>The claims\<close>

text \<open>
  C1. First writer wins for content: when the store already holds a message for id \<open>x\<close>
  (for instance one the token branch built from the fragment \<open>"He"\<close>), an end-of-phase
  event whose snapshot carries a message with the same id leaves that entry as it is. The
  store still answers \<open>x\<close> with the same message, and the whole previous store is a
  prefix of the new one.
\<close>

theorem snapshot_keeps_existing_entry:
  assumes "lookup x prevMessages = Some m"
    and "event \<in> {''on_chain_end'', ''on_tool_end'', ''on_chat_model_end''}"
  shows "lookup x (onLangChainEvent event data prevMessages) = Some m \<and>
         prefix prevMessages (onLangChainEvent event data prevMessages)"
proof (cases "output_messages data")
  case None
  with assms show ?thesis by (auto simp: onLangChainEvent_def)
next
  case (Some newMessages)
  with assms(2) have "onLangChainEvent event data prevMessages =
      mergeOutputMessages newMessages prevMessages"
    by (auto simp: onLangChainEvent_def)
  with assms(1) show ?thesis
    by (simp add: mergeOutputMessages_append lookup_def find_append_Some)
qed

theorem snapshot_keeps_existing_entry_witness:
  "lookup ''X''
     (session [LangChainEvent ''on_chat_model_stream''
        \<lparr>chunk = Some \<lparr>msg_id = Some ''X'', content = JStr ''He'', rest = ()\<rparr>,
         output_messages = None\<rparr>])
     = Some \<lparr>msg_id = Some ''X'', content = JStr ''He'' :: unit jsval, rest = ()\<rparr>
   \<and> ''on_chain_end'' \<in> {''on_chain_end'', ''on_tool_end'', ''on_chat_model_end''}
   \<and> lookup ''X''
       (onLangChainEvent ''on_chain_end''
          \<lparr>chunk = None,
           output_messages = Some [\<lparr>msg_id = Some ''X'', content = JStr ''Hello'', rest = ()\<rparr>]\<rparr>
          (session [LangChainEvent ''on_chat_model_stream''
             \<lparr>chunk = Some \<lparr>msg_id = Some ''X'', content = JStr ''He'', rest = ()\<rparr>,
              output_messages = None\<rparr>]))
     = Some \<lparr>msg_id = Some ''X'', content = JStr ''He'' :: unit jsval, rest = ()\<rparr>"
proof -
  have stored: "lookup ''X''
     (session [LangChainEvent ''on_chat_model_stream''
        \<lparr>chunk = Some \<lparr>msg_id = Some ''X'', content = JStr ''He'', rest = ()\<rparr>,
         output_messages = None\<rparr>])
     = Some \<lparr>msg_id = Some ''X'', content = JStr ''He'' :: unit jsval, rest = ()\<rparr>"
    by (simp add: session_def onLangChainEvent_def onStream_def appendChunk_def lookup_def)
  have ev: "''on_chain_end'' \<in> {''on_chain_end'', ''on_tool_end'', ''on_chat_model_end''}"
    by simp
  from snapshot_keeps_existing_entry [OF stored ev] stored ev show ?thesis
    by blast
qed

text \<open>
  C2. The end-to-end scenario: from the empty store, the token events for \<open>m1\<close> with
  \<open>"Hi"\<close> and then \<open>" there"\<close>, followed by an end-of-phase event carrying \<open>m1\<close> with
  \<open>"Hi there"\<close> and \<open>m2\<close> with \<open>"done"\<close>, leave exactly two entries, in this order:
  \<open>m1\<close> with the content accumulated from the fragments (it keeps the other properties
  \<open>r1\<close> of the first chunk, not \<open>r3\<close> of the snapshot), then \<open>m2\<close> with \<open>"done"\<close>.
\<close>

theorem end_to_end_scenario:
  "session
     [LangChainEvent ''on_chat_model_stream''
        \<lparr>chunk = Some \<lparr>msg_id = Some ''m1'', content = JStr ''Hi'', rest = r1\<rparr>,
         output_messages = None\<rparr>,
      LangChainEvent ''on_chat_model_stream''
        \<lparr>chunk = Some \<lparr>msg_id = Some ''m1'', content = JStr '' there'', rest = r2\<rparr>,
         output_messages = None\<rparr>,
      LangChainEvent ''on_chain_end''
        \<lparr>chunk = None,
         output_messages = Some
           [\<lparr>msg_id = Some ''m1'', content = JStr ''Hi there'', rest = r3\<rparr>,
            \<lparr>msg_id = Some ''m2'', content = JStr ''done'', rest = r4\<rparr>]\<rparr>]
   = [\<lparr>msg_id = Some ''m1'', content = JStr ''Hi there'', rest = r1\<rparr>,
      \<lparr>msg_id = Some ''m2'', content = JStr ''done'', rest = r4\<rparr>]"
  by (simp add: session_def onLangChainEvent_def onStream_def appendChunk_def
      mergeOutputMessages_def js_plus_string_def js_or_def)

text \<open>
  C3. Content-type merge of the token branch, for an id \<open>x\<close> the store does not hold yet:
  two string fragments (such as \<open>"He"\<close> and \<open>"llo"\<close>) leave one new entry whose content
  is their concatenation (\<open>"Hello"\<close>), and two block-array fragments \<open>[a]\<close> and \<open>[b]\<close>
  leave one new entry whose content is \<open>[a, b]\<close>.
\<close>

theorem token_fragments_accumulate:
  assumes "x \<noteq> []" and "Some x \<notin> set (map msg_id prevMessages)"
    and "f1 \<noteq> []" and "f2 \<noteq> []"
  shows "onStream (Some \<lparr>msg_id = Some x, content = JStr f2, rest = r2\<rparr>)
           (onStream (Some \<lparr>msg_id = Some x, content = JStr f1, rest = r1\<rparr>) prevMessages)
         = prevMessages @ [\<lparr>msg_id = Some x, content = JStr (f1 @ f2), rest = r1\<rparr>]
       \<and> onStream (Some \<lparr>msg_id = Some x, content = JArr bs2, rest = r2\<rparr>)
           (onStream (Some \<lparr>msg_id = Some x, content = JArr bs1, rest = r1\<rparr>) prevMessages)
         = prevMessages @ [\<lparr>msg_id = Some x, content = JArr (bs1 @ bs2), rest = r1\<rparr>]"
proof -
  from assms(2) have new: "findIndex (\<lambda>msg. msg_id msg = Some x) prevMessages = None"
    by (simp add: findIndex_new_iff)
  note found = findIndex_appended [OF new]
  have "onStream (Some \<lparr>msg_id = Some x, content = JStr f2, rest = r2\<rparr>)
           (onStream (Some \<lparr>msg_id = Some x, content = JStr f1, rest = r1\<rparr>) prevMessages)
         = prevMessages @ [\<lparr>msg_id = Some x, content = JStr (f1 @ f2), rest = r1\<rparr>]"
    using assms(1,3,4) new found
    by (simp add: onStream_def appendChunk_new appendChunk_string js_or_def)
  moreover
  have "onStream (Some \<lparr>msg_id = Some x, content = JArr bs2, rest = r2\<rparr>)
           (onStream (Some \<lparr>msg_id = Some x, content = JArr bs1, rest = r1\<rparr>) prevMessages)
         = prevMessages @ [\<lparr>msg_id = Some x, content = JArr (bs1 @ bs2), rest = r1\<rparr>]"
    using assms(1) new found
    by (simp add: onStream_def appendChunk_new appendChunk_array)
  ultimately show ?thesis by simp
qed

theorem token_fragments_accumulate_witness:
  "''m1'' \<noteq> [] \<and> Some ''m1'' \<notin> set (map msg_id ([] :: (string, unit) store))
   \<and> ''He'' \<noteq> [] \<and> ''llo'' \<noteq> []
   \<and> onStream (Some \<lparr>msg_id = Some ''m1'', content = JStr ''llo'', rest = ()\<rparr>)
        (onStream (Some \<lparr>msg_id = Some ''m1'', content = JStr ''He'', rest = ()\<rparr>) [])
      = [\<lparr>msg_id = Some ''m1'', content = JStr ''Hello'' :: string jsval, rest = ()\<rparr>]
   \<and> onStream (Some \<lparr>msg_id = Some ''m1'', content = JArr [JObj ''b''], rest = ()\<rparr>)
        (onStream (Some \<lparr>msg_id = Some ''m1'', content = JArr [JObj ''a''], rest = ()\<rparr>) [])
      = [\<lparr>msg_id = Some ''m1'', content = JArr [JObj ''a'', JObj ''b''], rest = ()\<rparr>]"
  using token_fragments_accumulate [of "''m1''" "[] :: (string, unit) store" "''He''" "''llo''"
      "()" "()" "[JObj ''b'']" "[JObj ''a'']"]
  by simp

text \<open>
  C4 says that a string fragment arriving for a stored id whose content is not a string
  (a block array, for instance) leaves a sequence: the previous content is kept and the
  fragment is appended to it. The string branch does not do that. Line 136 is
  \<open>(existingMessage.content || "") + chunkContent\<close>, a string concatenation whatever the
  stored content is, so after a block-array chunk \<open>[{...}]\<close> and then the string chunk
  \<open>"x"\<close> for the same id the store holds the flat string \<open>"[object Object]x"\<close>: the block
  is lost and the content is not an array. The array branch (lines 141 to 143) handles the
  mirrored case: after the string chunk \<open>"x"\<close> and then the block-array chunk, the stored
  string is boxed and the content is the sequence \<open>["x", {...}]\<close>.
\<close>

theorem string_onto_blocks_gives_flat_string:
  "session
     [LangChainEvent ''on_chat_model_stream''
        \<lparr>chunk = Some \<lparr>msg_id = Some ''m1'', content = JArr [JObj ''a''], rest = ()\<rparr>,
         output_messages = None\<rparr>,
      LangChainEvent ''on_chat_model_stream''
        \<lparr>chunk = Some \<lparr>msg_id = Some ''m1'', content = JStr ''x'', rest = ()\<rparr>,
         output_messages = None\<rparr>]
     = [\<lparr>msg_id = Some ''m1'', content = JStr ''[object Object]x'', rest = ()\<rparr>]
   \<and> \<not> isArray (content (onStream (Some \<lparr>msg_id = Some ''m1'', content = JStr ''x'', rest = ()\<rparr>)
        [\<lparr>msg_id = Some ''m1'', content = JArr [JObj ''a''], rest = ()\<rparr>] ! 0))
   \<and> session
     [LangChainEvent ''on_chat_model_stream''
        \<lparr>chunk = Some \<lparr>msg_id = Some ''m1'', content = JStr ''x'', rest = ()\<rparr>,
         output_messages = None\<rparr>,
      LangChainEvent ''on_chat_model_stream''
        \<lparr>chunk = Some \<lparr>msg_id = Some ''m1'', content = JArr [JObj ''a''], rest = ()\<rparr>,
         output_messages = None\<rparr>]
     = [\<lparr>msg_id = Some ''m1'', content = JArr [JStr ''x'', JObj ''a''], rest = ()\<rparr>]"
  by (simp add: session_def onLangChainEvent_def onStream_def appendChunk_def
      js_plus_string_def js_or_def)

text \<open>
  C5 counts the empty block array among the empty fragments that change nothing. The
  guard of lines 118 to 122 rejects \<open>undefined\<close>, \<open>null\<close> and \<open>""\<close> only, so a chunk with
  content \<open>[]\<close> and a new id adds an entry to the empty store.
\<close>

theorem empty_block_array_counterexample:
  "onLangChainEvent ''on_chat_model_stream''
     \<lparr>chunk = Some \<lparr>msg_id = Some ''m1'', content = JArr [] :: unit jsval, rest = ()\<rparr>,
      output_messages = None\<rparr> []
   \<noteq> []"
  by (simp add: onLangChainEvent_def onStream_def appendChunk_def)

text \<open>
  C5, as the code has it. A token event (\<open>on_chain_stream\<close> or
  \<open>on_chat_model_stream\<close>) whose chunk has content \<open>undefined\<close>, \<open>null\<close> or \<open>""\<close>, or
  whose payload has no chunk, leaves the store exactly as it was; in particular no entry
  is created.
\<close>

theorem absent_fragment_noop:
  assumes "event = ''on_chain_stream'' \<or> event = ''on_chat_model_stream''"
    and "content c = JUndefined \<or> content c = JNull \<or> content c = JStr []"
  shows "onLangChainEvent event (data\<lparr>chunk := Some c\<rparr>) prevMessages = prevMessages
       \<and> onLangChainEvent event (data\<lparr>chunk := None\<rparr>) prevMessages = prevMessages"
  using assms by (auto simp: onLangChainEvent_def onStream_def split: option.splits)

theorem absent_fragment_noop_witness:
  "onLangChainEvent ''on_chain_stream''
     \<lparr>chunk = Some \<lparr>msg_id = Some ''m2'', content = JStr [], rest = ()\<rparr>, output_messages = None\<rparr>
     [\<lparr>msg_id = Some ''m1'', content = JStr ''a'' :: unit jsval, rest = ()\<rparr>]
   = [\<lparr>msg_id = Some ''m1'', content = JStr ''a'', rest = ()\<rparr>]
   \<and> onLangChainEvent ''on_chain_stream''
     \<lparr>chunk = None, output_messages = None\<rparr>
     [\<lparr>msg_id = Some ''m1'', content = JStr ''a'' :: unit jsval, rest = ()\<rparr>]
   = [\<lparr>msg_id = Some ''m1'', content = JStr ''a'', rest = ()\<rparr>]"
  using absent_fragment_noop [of "''on_chain_stream''" "\<lparr>msg_id = Some ''m2'', content = JStr [] :: unit jsval, rest = ()\<rparr>"
      "\<lparr>chunk = None, output_messages = None\<rparr>"
      "[\<lparr>msg_id = Some ''m1'', content = JStr ''a'' :: unit jsval, rest = ()\<rparr>]"]
  by simp

text \<open>
  C6. Idempotent union by id: for every store and every snapshot list, merging the list
  a second time returns the store the first merge returned.
\<close>

theorem snapshot_merge_idempotent:
  "mergeOutputMessages newMessages (mergeOutputMessages newMessages prevMessages)
     = mergeOutputMessages newMessages prevMessages"
proof -
  have "filter (\<lambda>msg. truthy_id (msg_id msg) \<and>
          msg_id msg \<notin> set (map msg_id (prevMessages @
            filter (\<lambda>msg. truthy_id (msg_id msg) \<and> msg_id msg \<notin> set (map msg_id prevMessages))
              newMessages)))
        newMessages = []"
    by (auto simp: filter_empty_conv)
  then show ?thesis
    by (simp add: mergeOutputMessages_append)
qed

text \<open>
  C7. Token events are not deduplicated: for a stored id \<open>x\<close> and a non-empty string
  fragment \<open>f\<close>, the first delivery leaves the content \<open>w + f\<close> (\<open>w\<close> being the string
  the previous content is read as) and a second delivery of the same event leaves
  \<open>w + f + f\<close>, a different store. Applying a token event is not idempotent.
\<close>

theorem duplicate_delta_appends_twice:
  assumes "x \<noteq> []" and "f \<noteq> []"
    and "findIndex (\<lambda>msg. msg_id msg = Some x) prevMessages = Some i"
  shows "onStream (Some \<lparr>msg_id = Some x, content = JStr f, rest = r\<rparr>) prevMessages
           = prevMessages[i := (prevMessages ! i)
               \<lparr>content := JStr (ToString (js_or (content (prevMessages ! i)) (JStr [])) @ f)\<rparr>]
       \<and> onStream (Some \<lparr>msg_id = Some x, content = JStr f, rest = r\<rparr>)
           (onStream (Some \<lparr>msg_id = Some x, content = JStr f, rest = r\<rparr>) prevMessages)
           = prevMessages[i := (prevMessages ! i)
               \<lparr>content := JStr (ToString (js_or (content (prevMessages ! i)) (JStr [])) @ f @ f)\<rparr>]
       \<and> onStream (Some \<lparr>msg_id = Some x, content = JStr f, rest = r\<rparr>)
           (onStream (Some \<lparr>msg_id = Some x, content = JStr f, rest = r\<rparr>) prevMessages)
           \<noteq> onStream (Some \<lparr>msg_id = Some x, content = JStr f, rest = r\<rparr>) prevMessages"
proof -
  let ?w = "ToString (js_or (content (prevMessages ! i)) (JStr []))"
  let ?c = "\<lparr>msg_id = Some x, content = JStr f, rest = r\<rparr>"
  let ?once = "prevMessages[i := (prevMessages ! i)\<lparr>content := JStr (?w @ f)\<rparr>]"
  let ?twice = "prevMessages[i := (prevMessages ! i)\<lparr>content := JStr (?w @ f @ f)\<rparr>]"
  from findIndex_Some [OF assms(3)]
  have i: "i < length prevMessages" and idi: "msg_id (prevMessages ! i) = Some x"
    by simp_all
  have once: "onStream (Some ?c) prevMessages = ?once"
    using assms by (simp add: onStream_def appendChunk_string)
  have found: "findIndex (\<lambda>msg. msg_id msg = Some x) ?once = Some i"
    using assms(3) idi by (simp add: findIndex_update)
  have "onStream (Some ?c) ?once = appendChunk x (JStr f) ?c ?once"
    using assms(1,2) by (simp add: onStream_def)
  also have "\<dots> = ?once[i := (?once ! i)
      \<lparr>content := JStr (ToString (js_or (content (?once ! i)) (JStr [])) @ f)\<rparr>]"
    by (rule appendChunk_string [OF found])
  also have "\<dots> = ?twice"
    using i assms(2) by (simp add: js_or_def)
  finally have twice: "onStream (Some ?c) ?once = ?twice" .
  have "content (?twice ! i) \<noteq> content (?once ! i)"
    using i assms(2) by simp
  then have "?twice \<noteq> ?once" by metis
  with once twice show ?thesis by simp
qed

theorem duplicate_delta_appends_twice_witness:
  "onStream (Some \<lparr>msg_id = Some ''m1'', content = JStr ''b'', rest = ()\<rparr>)
      [\<lparr>msg_id = Some ''m1'', content = JStr ''a'' :: unit jsval, rest = ()\<rparr>]
     = [\<lparr>msg_id = Some ''m1'', content = JStr ''ab'', rest = ()\<rparr>]
   \<and> onStream (Some \<lparr>msg_id = Some ''m1'', content = JStr ''b'', rest = ()\<rparr>)
      (onStream (Some \<lparr>msg_id = Some ''m1'', content = JStr ''b'', rest = ()\<rparr>)
        [\<lparr>msg_id = Some ''m1'', content = JStr ''a'' :: unit jsval, rest = ()\<rparr>])
     = [\<lparr>msg_id = Some ''m1'', content = JStr ''abb'', rest = ()\<rparr>]"
  using duplicate_delta_appends_twice [of "''m1''" "''b''" "[\<lparr>msg_id = Some ''m1'', content = JStr ''a'' :: unit jsval, rest = ()\<rparr>]" 0 "()"]
  by (simp add: js_or_def onStream_def appendChunk_def js_plus_string_def)

text \<open>
  C8 says that after every event the store has the previous store as a prefix. A token
  event for a stored id replaces that entry by one with a longer content, so the previous
  store \<open>[m1: "a"]\<close> is not a prefix of the new one, \<open>[m1: "ab"]\<close>.
\<close>

theorem store_prefix_counterexample:
  "\<not> prefix [\<lparr>msg_id = Some ''m1'', content = JStr ''a'' :: unit jsval, rest = ()\<rparr>]
      (process [\<lparr>msg_id = Some ''m1'', content = JStr ''a'', rest = ()\<rparr>]
         (LangChainEvent ''on_chat_model_stream''
            \<lparr>chunk = Some \<lparr>msg_id = Some ''m1'', content = JStr ''b'', rest = ()\<rparr>,
             output_messages = None\<rparr>))"
  by (simp add: onLangChainEvent_def onStream_def appendChunk_def js_plus_string_def js_or_def)

text \<open>
  C8, as the code has it. For every input (a token event, an end-of-phase snapshot, any
  other LangChain event, a run of the effect on \<open>streamValue\<close>) the ids of the previous
  store are a prefix of the ids of the new store: no entry is deleted or moved, and the
  size does not decrease; the same holds along a whole session. For the effect on
  \<open>streamValue\<close> and for every event that is not a token event, the previous store itself
  is a prefix of the new one. A LangChain event that does not leave the previous store as
  a prefix is a token event for an id the store already holds, and a token event for such
  an id replaces in place the content of the first entry with that id: the new store is
  the previous one with that entry's content changed, every other entry, and the id and
  the other properties of that entry, being as before.
\<close>

theorem store_ids_monotone:
  "prefix (map msg_id prevMessages) (map msg_id (process prevMessages inp))
   \<and> length prevMessages \<le> length (process prevMessages inp)
   \<and> prefix (map msg_id (session inputs)) (map msg_id (session (inputs @ later)))
   \<and> prefix prevMessages (process prevMessages (StreamValue streamMessages))
   \<and> (event \<noteq> ''on_chain_stream'' \<and> event \<noteq> ''on_chat_model_stream'' \<longrightarrow>
        prefix prevMessages (process prevMessages (LangChainEvent event data)))
   \<and> (prefix prevMessages (process prevMessages (LangChainEvent event data))
       \<or> (\<exists>c x i w. chunk data = Some c \<and> msg_id c = Some x
            \<and> findIndex (\<lambda>msg. msg_id msg = Some x) prevMessages = Some i
            \<and> process prevMessages (LangChainEvent event data)
                = prevMessages[i := (prevMessages ! i)\<lparr>content := w\<rparr>]))
   \<and> ((event = ''on_chain_stream'' \<or> event = ''on_chat_model_stream'')
        \<and> chunk data = Some c \<and> msg_id c = Some x
        \<and> findIndex (\<lambda>msg. msg_id msg = Some x) prevMessages = Some i \<longrightarrow>
        (\<exists>w. process prevMessages (LangChainEvent event data)
                = prevMessages[i := (prevMessages ! i)\<lparr>content := w\<rparr>]))"
proof -
  have ids: "prefix (map msg_id prevMessages) (map msg_id (process prevMessages inp))"
    by (rule ids_process)
  from prefix_length_le [OF ids]
  have len: "length prevMessages \<le> length (process prevMessages inp)"
    by simp
  have ses: "prefix (map msg_id (session inputs)) (map msg_id (session (inputs @ later)))"
    by (simp add: session_def ids_foldl_process)
  have sync: "prefix prevMessages (process prevMessages (StreamValue streamMessages))"
    by (simp add: streamValueEffect_def mergeStreamMessages_append split: option.splits)
  have snap: "event \<noteq> ''on_chain_stream'' \<and> event \<noteq> ''on_chat_model_stream'' \<longrightarrow>
        prefix prevMessages (process prevMessages (LangChainEvent event data))"
    by (simp add: onLangChainEvent_def mergeOutputMessages_append split: option.splits)
  have shape: "prefix prevMessages (process prevMessages (LangChainEvent event data))
       \<or> (\<exists>c x i w. chunk data = Some c \<and> msg_id c = Some x
            \<and> findIndex (\<lambda>msg. msg_id msg = Some x) prevMessages = Some i
            \<and> process prevMessages (LangChainEvent event data)
                = prevMessages[i := (prevMessages ! i)\<lparr>content := w\<rparr>])"
  proof (cases "event = ''on_chain_stream'' \<or> event = ''on_chat_model_stream''")
    case False
    with snap show ?thesis by simp
  next
    case True
    then have eq: "process prevMessages (LangChainEvent event data)
        = onStream (chunk data) prevMessages"
      by (auto simp: onLangChainEvent_def)
    from onStream_cases [of "chunk data" prevMessages] show ?thesis
      unfolding eq by (elim disjE exE conjE) (simp, simp, blast)
  qed
  have tok: "(event = ''on_chain_stream'' \<or> event = ''on_chat_model_stream'')
        \<and> chunk data = Some c \<and> msg_id c = Some x
        \<and> findIndex (\<lambda>msg. msg_id msg = Some x) prevMessages = Some i \<longrightarrow>
        (\<exists>w. process prevMessages (LangChainEvent event data)
                = prevMessages[i := (prevMessages ! i)\<lparr>content := w\<rparr>])"
  proof (intro impI, elim conjE)
    assume ev: "event = ''on_chain_stream'' \<or> event = ''on_chat_model_stream''"
      and ch: "chunk data = Some c" and idc: "msg_id c = Some x"
      and fi: "findIndex (\<lambda>msg. msg_id msg = Some x) prevMessages = Some i"
    from ev ch have "process prevMessages (LangChainEvent event data)
        = onStream (Some c) prevMessages"
      by (auto simp: onLangChainEvent_def)
    with onStream_shape [OF idc fi]
    show "\<exists>w. process prevMessages (LangChainEvent event data)
                = prevMessages[i := (prevMessages ! i)\<lparr>content := w\<rparr>]"
      by simp
  qed
  from ids len ses sync snap shape tok show ?thesis by blast
qed

theorem store_ids_monotone_witness:
  "''on_chain_end'' \<noteq> ''on_chain_stream'' \<and> ''on_chain_end'' \<noteq> ''on_chat_model_stream''
   \<and> prefix [\<lparr>msg_id = Some ''m1'', content = JStr ''a'' :: unit jsval, rest = ()\<rparr>]
       (process [\<lparr>msg_id = Some ''m1'', content = JStr ''a'', rest = ()\<rparr>]
       (LangChainEvent ''on_chain_end'' \<lparr>chunk = None, output_messages =
          Some [\<lparr>msg_id = Some ''m1'', content = JStr ''ab'', rest = ()\<rparr>,
                \<lparr>msg_id = Some ''m2'', content = JStr ''c'', rest = ()\<rparr>]\<rparr>))
   \<and> findIndex (\<lambda>msg. msg_id msg = Some ''m2'')
        [\<lparr>msg_id = Some ''m1'', content = JStr ''a'' :: unit jsval, rest = ''r1''\<rparr>,
         \<lparr>msg_id = Some ''m2'', content = JStr ''c'', rest = ''r2''\<rparr>] = Some 1
   \<and> process
        [\<lparr>msg_id = Some ''m1'', content = JStr ''a'' :: unit jsval, rest = ''r1''\<rparr>,
         \<lparr>msg_id = Some ''m2'', content = JStr ''c'', rest = ''r2''\<rparr>]
        (LangChainEvent ''on_chat_model_stream''
           \<lparr>chunk = Some \<lparr>msg_id = Some ''m2'', content = JStr ''d'', rest = ''r3''\<rparr>,
            output_messages = None\<rparr>)
      = [\<lparr>msg_id = Some ''m1'', content = JStr ''a'', rest = ''r1''\<rparr>,
         \<lparr>msg_id = Some ''m2'', content = JStr ''cd'', rest = ''r2''\<rparr>]"
  using store_ids_monotone
      [where prevMessages = "[\<lparr>msg_id = Some ''m1'', content = JStr ''a'' :: unit jsval, rest = ()\<rparr>]"
        and event = "''on_chain_end''"
        and data = "\<lparr>chunk = None, output_messages =
          Some [\<lparr>msg_id = Some ''m1'', content = JStr ''ab'', rest = ()\<rparr>,
                \<lparr>msg_id = Some ''m2'', content = JStr ''c'', rest = ()\<rparr>]\<rparr>"]
    store_ids_monotone
      [where prevMessages =
          "[\<lparr>msg_id = Some ''m1'', content = JStr ''a'' :: unit jsval, rest = ''r1''\<rparr>,
            \<lparr>msg_id = Some ''m2'', content = JStr ''c'', rest = ''r2''\<rparr>]"
        and event = "''on_chat_model_stream''"
        and data = "\<lparr>chunk = Some \<lparr>msg_id = Some ''m2'', content = JStr ''d'', rest = ''r3''\<rparr>,
            output_messages = None\<rparr>"
        and c = "\<lparr>msg_id = Some ''m2'', content = JStr ''d'', rest = ''r3''\<rparr>"
        and x = "''m2''" and i = 1]
  by (simp add: onLangChainEvent_def onStream_def appendChunk_def mergeOutputMessages_def
      js_plus_string_def js_or_def)

text \<open>
  C9 says that both mergers compute the policy of the specification: keep the incoming
  messages whose id is not yet in the store, and append them. Both filters of the source
  also require \<open>msg.id\<close> to be truthy (lines 179 and 237), so an incoming message whose id
  is the empty string is appended by the policy as worded and dropped by both updaters.
\<close>

theorem merge_policy_counterexample:
  "mergeOutputMessages [\<lparr>msg_id = Some '''', content = JStr ''x'' :: unit jsval, rest = ()\<rparr>] []
     \<noteq> spec_filter_by_id_then_append [\<lparr>msg_id = Some '''', content = JStr ''x'', rest = ()\<rparr>] []
   \<and> mergeStreamMessages [\<lparr>msg_id = Some '''', content = JStr ''x'' :: unit jsval, rest = ()\<rparr>] []
     \<noteq> spec_filter_by_id_then_append [\<lparr>msg_id = Some '''', content = JStr ''x'', rest = ()\<rparr>] []"
  by (simp add: mergeOutputMessages_def mergeStreamMessages_def spec_filter_by_id_then_append_def)

text \<open>
  C9, as the code has it. The two updaters are the same function, and it is the policy
  of the specification applied to the incoming messages whose id is truthy (present and
  not the empty string): those of them whose id is not yet in the store are appended, in
  their order, to the end of the store. The effect on \<open>streamValue\<close> and an end-of-phase
  event carrying the same list give the same store.
\<close>

theorem mergers_agree:
  "mergeStreamMessages incoming prevMessages = mergeOutputMessages incoming prevMessages
   \<and> mergeOutputMessages incoming prevMessages
       = spec_filter_by_id_then_append (filter (\<lambda>msg. truthy_id (msg_id msg)) incoming) prevMessages
   \<and> streamValueEffect (Some incoming) prevMessages
       = onLangChainEvent ''on_chain_end'' \<lparr>chunk = c, output_messages = Some incoming\<rparr> prevMessages"
  by (simp add: mergeStreamMessages_append mergeOutputMessages_append
      spec_filter_by_id_then_append_def streamValueEffect_def onLangChainEvent_def)

text \<open>
  C10. Neither merger adds a message whose id is absent or falsy: after either of them
  the entries with a falsy id are exactly those the store had before. As the token branch
  also requires a truthy id, every entry of the store of a session has a truthy
  (non-empty) id.
\<close>

theorem falsy_id_never_stored:
  "filter (\<lambda>msg. \<not> truthy_id (msg_id msg)) (mergeOutputMessages incoming prevMessages)
     = filter (\<lambda>msg. \<not> truthy_id (msg_id msg)) prevMessages
   \<and> filter (\<lambda>msg. \<not> truthy_id (msg_id msg)) (mergeStreamMessages incoming prevMessages)
     = filter (\<lambda>msg. \<not> truthy_id (msg_id msg)) prevMessages
   \<and> list_all (\<lambda>msg. truthy_id (msg_id msg)) (session inputs)"
proof -
  have "filter (\<lambda>msg. \<not> truthy_id (msg_id msg))
          (filter (\<lambda>msg. truthy_id (msg_id msg) \<and> msg_id msg \<notin> set (map msg_id prevMessages)) incoming) = []"
    by (auto simp: filter_empty_conv)
  then have "filter (\<lambda>msg. \<not> truthy_id (msg_id msg)) (mergeOutputMessages incoming prevMessages)
     = filter (\<lambda>msg. \<not> truthy_id (msg_id msg)) prevMessages"
    and "filter (\<lambda>msg. \<not> truthy_id (msg_id msg)) (mergeStreamMessages incoming prevMessages)
     = filter (\<lambda>msg. \<not> truthy_id (msg_id msg)) prevMessages"
    by (simp_all add: mergeOutputMessages_append mergeStreamMessages_append)
  moreover
  have "\<forall>m \<in> set (foldl process [] inputs). truthy_id (msg_id m)"
    by (rule truthy_foldl_process) simp
  then have "list_all (\<lambda>msg. truthy_id (msg_id msg)) (session inputs)"
    by (simp add: session_def list_all_iff)
  ultimately show ?thesis by simp
qed

end
